theory Spec2Isabelle
  imports
    Main
    "HOL-Library.Sublist"
    "HOL-Library.Multiset"
    "HOL-Library.Char_ord"
    "HOL-Library.List_Lexorder"
begin

section \<open>IDA-CFP: strings of C functions and the functions that use them\<close>

text \<open>
  The development embeds the extraction and aggregation pipeline of IDA-CFP:
  \<^item> \<open>astparser.py\<close>: \<open>ConstantVisitor\<close>, \<open>FuncDefVisitor\<close> and \<open>AstParser\<close>;
  \<^item> \<open>record.py\<close>: the class-level state \<open>Record.tpl_list\<close> and \<open>Record.str_func_dict\<close>
    and the adjudication \<open>Record.integrate_list_to_dict\<close>;
  \<^item> \<open>core.py\<close>: \<open>Core.process_files\<close>;
  \<^item> \<open>interface.py\<close>: \<open>Interface.load_new_ast\<close>, \<open>Interface.convert_dict_to_json\<close> and
    \<open>Interface.process_out_data\<close>.

  Python strings are \<open>string\<close> (character lists, one character for one code point
  below 256), Python lists are HOL lists, the dictionary is a map, exceptions are values of the datatype \<open>error\<close>, and every mutation is explicit
  state passing. The list object that \<open>ConstantVisitor.values\<close> and the local variable
  \<open>function_strings\<close> share is kept in an explicit store, because the reset between two
  functions works through that sharing. Log records are not modelled.
\<close>

subsection \<open>Python strings\<close>

abbreviation dquote :: char where
  "dquote \<equiv> CHR 0x22"

abbreviation backslash :: char where
  "backslash \<equiv> CHR 0x5C"

text \<open>
  \<open>str.replace(old, new)\<close>: every non-overlapping occurrence of \<open>old\<close>, found from left to
  right, is replaced by \<open>new\<close>. For the empty \<open>old\<close> Python puts \<open>new\<close> in front of every
  character and at the end.
\<close>

function py_replace :: "string \<Rightarrow> string \<Rightarrow> string \<Rightarrow> string" where
  "py_replace old new [] = (if old = [] then new else [])"
| "py_replace old new (c # cs) =
     (if old = [] then new @ c # py_replace old new cs
      else if prefix old (c # cs)
        then new @ py_replace old new (drop (length old) (c # cs))
      else c # py_replace old new cs)"
  by pat_completeness auto
termination
  by (relation "measure (\<lambda>(old, new, s). length s)") auto

text \<open>
  \<open>int(text)\<close> on a \<open>str\<close>, base ten, as CPython (3.6 and later) decides it for text whose
  code points are below 256: white space on both sides is skipped (the six ASCII white
  space characters, and the next-line and no-break-space characters, which CPython turns
  into a space first), one sign is allowed, then at least one decimal digit, with single
  underscores allowed between digits. \<open>py_int_parses\<close> is true when \<open>int\<close> returns and
  false when it raises \<open>ValueError\<close>. Interpreters that limit the length of integer strings
  (3.11, and the late security releases of 3.7 to 3.10) also raise for more than 4300
  digits unless the limit is switched off; that limit is not part of this definition.
\<close>

definition py_isspace :: "char \<Rightarrow> bool" where
  "py_isspace c =
     (c \<in> set [CHR 0x09, CHR 0x0A, CHR 0x0B, CHR 0x0C, CHR 0x0D, CHR 0x20, CHR 0x85, CHR 0xA0])"

definition py_isdigit :: "char \<Rightarrow> bool" where
  "py_isdigit c = (c \<in> set ''0123456789'')"

fun digits_rest :: "string \<Rightarrow> bool" where
  "digits_rest [] = True"
| "digits_rest (c # cs) =
     (if py_isdigit c then digits_rest cs
      else if c = CHR ''_'' then
        (case cs of [] \<Rightarrow> False | d # ds \<Rightarrow> py_isdigit d \<and> digits_rest ds)
      else py_isspace c \<and> list_all py_isspace cs)"

definition py_int_parses :: "string \<Rightarrow> bool" where
  "py_int_parses s =
     (let t = dropWhile py_isspace s;
          u = (case t of [] \<Rightarrow> [] | c # cs \<Rightarrow> if c = CHR ''+'' \<or> c = CHR ''-'' then cs else t)
      in case u of [] \<Rightarrow> False | c # cs \<Rightarrow> py_isdigit c \<and> digits_rest cs)"

subsection \<open>Errors\<close>

text \<open>
  The exceptions of \<open>exception.py\<close> that the modelled functions raise. \<open>ProducerError\<close>
  stands for whatever the external calls \<open>os.path.getsize\<close> and \<open>parse_file\<close> raise.
\<close>

datatype error =
    NoFilesSpecifiedError
  | NoneFilePathError
  | AstEmptyError
  | NoFunctionsFoundError
  | ProducerError

subsection \<open>Syntax trees and the two visitors\<close>

text \<open>
  A pycparser tree as the visitors see it: a \<open>Constant\<close> node with its \<open>value\<close> text, a
  \<open>FuncDef\<close> node with \<open>decl.name\<close> and its children, and a node of any other class with
  its children. \<open>NodeVisitor.visit\<close> calls \<open>visit_<Class>\<close> when the visitor defines it
  and \<open>generic_visit\<close>, which visits the children in order, otherwise.
\<close>

datatype node =
    Constant string
  | FuncDef string "node list"
  | Node "node list"

type_synonym funcdef = "string \<times> node list"

text \<open>\<open>ConstantVisitor.visit_Constant\<close>, on the list \<open>self.values\<close>.\<close>

definition visit_Constant :: "string \<Rightarrow> string list \<Rightarrow> string list" where
  "visit_Constant value vals =
     (if py_int_parses value then vals
      else (let stripped = py_replace [dquote] [] value
            in if stripped \<noteq> [] then vals @ [stripped] else vals))"

text \<open>\<open>ConstantVisitor.visit\<close>: only \<open>Constant\<close> has a method of its own.\<close>

fun const_visit :: "node \<Rightarrow> string list \<Rightarrow> string list" where
  "const_visit (Constant v) vals = visit_Constant v vals"
| "const_visit (FuncDef n cs) vals = fold const_visit cs vals"
| "const_visit (Node cs) vals = fold const_visit cs vals"

text \<open>\<open>FuncDefVisitor.visit_FuncDef\<close>, on the list \<open>self.nodes\<close>; the children are not visited.\<close>

definition visit_FuncDef :: "funcdef \<Rightarrow> funcdef list \<Rightarrow> funcdef list" where
  "visit_FuncDef fd nodes = nodes @ [fd]"

fun func_visit :: "node \<Rightarrow> funcdef list \<Rightarrow> funcdef list" where
  "func_visit (Constant v) nodes = nodes"
| "func_visit (FuncDef n cs) nodes = visit_FuncDef (n, cs) nodes"
| "func_visit (Node cs) nodes = fold func_visit cs nodes"

text \<open>
  The string values of the constants below a node, in traversal order, stated without an
  accumulator: what a function's own body contains.
\<close>

definition literal_of :: "string \<Rightarrow> string list" where
  "literal_of v =
     (if \<not> py_int_parses v \<and> filter (\<lambda>c. c \<noteq> dquote) v \<noteq> []
      then [filter (\<lambda>c. c \<noteq> dquote) v] else [])"

fun literals_of :: "node \<Rightarrow> string list" where
  "literals_of (Constant v) = literal_of v"
| "literals_of (FuncDef n cs) = concat (map literals_of cs)"
| "literals_of (Node cs) = concat (map literals_of cs)"

subsection \<open>Record: the candidate list and the output mapping\<close>

record record_st =
  tpl_list :: "(string \<times> string) list"
  str_func_dict :: "string \<rightharpoonup> string"

text \<open>\<open>Record.add_func_str_to_list\<close>\<close>

definition add_func_str_to_list :: "string \<Rightarrow> string \<Rightarrow> record_st \<Rightarrow> record_st" where
  "add_func_str_to_list new_func new_string rs =
     rs\<lparr>tpl_list := tpl_list rs @ [(new_func, new_string)]\<rparr>"

text \<open>
  \<open>Record.remove_non_unique_from_list\<close>: the three loops of the source, on the list itself.
\<close>

definition remove_non_unique :: "(string \<times> string) list \<Rightarrow> (string \<times> string) list" where
  "remove_non_unique tpl =
     (let strings = map snd tpl;
          to_remove = filter (\<lambda>string. count_list strings string > 1) strings
      in fold (\<lambda>removal l. filter (\<lambda>i. snd i \<noteq> removal) l) to_remove tpl)"

definition remove_non_unique_from_list :: "record_st \<Rightarrow> record_st" where
  "remove_non_unique_from_list rs = rs\<lparr>tpl_list := remove_non_unique (tpl_list rs)\<rparr>"

text \<open>
  \<open>Record.sort_tmp_list\<close>: \<open>list.sort\<close> with the function name as key is stable, and Python
  orders strings lexicographically by character code.
\<close>

definition sort_tmp_list :: "record_st \<Rightarrow> record_st" where
  "sort_tmp_list rs = rs\<lparr>tpl_list := sort_key fst (tpl_list rs)\<rparr>"

text \<open>\<open>dict(pairs)\<close>: the pairs are stored in order, a later pair replaces an earlier one.\<close>

definition py_dict :: "(string \<times> string) list \<Rightarrow> (string \<rightharpoonup> string)" where
  "py_dict pairs = fold (\<lambda>kv m. m(fst kv \<mapsto> snd kv)) pairs Map.empty"

text \<open>\<open>Record.add_unique_to_dict\<close>; \<open>d.update(e)\<close> is \<open>d ++ e\<close>.\<close>

definition reverse_pairs :: "(string \<times> string) list \<Rightarrow> (string \<times> string) list" where
  "reverse_pairs tpl = map (\<lambda>t. (snd t, fst t)) tpl"

definition add_unique_to_dict :: "record_st \<Rightarrow> record_st" where
  "add_unique_to_dict rs =
     (let reverse = reverse_pairs (tpl_list rs)
      in rs\<lparr>str_func_dict := str_func_dict rs ++ py_dict reverse\<rparr>)"

text \<open>\<open>Record.integrate_list_to_dict\<close>: the adjudication.\<close>

definition integrate_list_to_dict :: "record_st \<Rightarrow> record_st" where
  "integrate_list_to_dict rs = add_unique_to_dict (sort_tmp_list (remove_non_unique_from_list rs))"

subsection \<open>AstParser\<close>

text \<open>
  The list objects of strings live in a store; \<open>const_values\<close> is the reference held by
  \<open>self.const_visitor.values\<close>, \<open>func_nodes\<close> is \<open>self.func_visitor.nodes\<close>.
\<close>

type_synonym ref = nat

record astparser =
  heap :: "ref \<Rightarrow> string list"
  next_ref :: ref
  const_values :: ref
  func_nodes :: "funcdef list"

text \<open>The list display \<open>[]\<close>: a new, empty list object.\<close>

definition new_list :: "astparser \<Rightarrow> ref \<times> astparser" where
  "new_list a =
     (next_ref a, a\<lparr>heap := (heap a)(next_ref a := []), next_ref := Suc (next_ref a)\<rparr>)"

text \<open>\<open>AstParser.__init__\<close>: two new visitors.\<close>

definition AstParser_init :: "astparser \<Rightarrow> astparser" where
  "AstParser_init a =
     (let (r, a1) = new_list a in a1\<lparr>const_values := r, func_nodes := []\<rparr>)"

text \<open>\<open>Verifier.check_num_ast_functions\<close>\<close>

definition check_num_ast_functions :: "funcdef list \<Rightarrow> error option" where
  "check_num_ast_functions nodes =
     (let count = length nodes in if count = 0 then Some NoFunctionsFoundError else None)"

text \<open>\<open>AstParser.locate_functions\<close>\<close>

definition locate_functions :: "astparser \<Rightarrow> node \<Rightarrow> (error + funcdef list) \<times> astparser" where
  "locate_functions a ast =
     (let a1 = a\<lparr>func_nodes := func_visit ast (func_nodes a)\<rparr>
      in case check_num_ast_functions (func_nodes a1) of
           Some e \<Rightarrow> (Inl e, a1)
         | None \<Rightarrow> (Inr (func_nodes a1), a1))"

text \<open>
  \<open>AstParser.locate_func_strings\<close>: the visitor appends to the list object behind
  \<open>const_values\<close>, and that same object is returned.
\<close>

definition locate_func_strings :: "astparser \<Rightarrow> funcdef \<Rightarrow> ref \<times> astparser" where
  "locate_func_strings a fd =
     (let r = const_values a
      in (r, a\<lparr>heap := (heap a)(r := const_visit (FuncDef (fst fd) (snd fd)) (heap a r))\<rparr>))"

text \<open>
  The loop of \<open>AstParser.build_function_str_pairs\<close> over \<open>function_list\<close>;
  \<open>function_strings\<close> is the reference the local variable holds.
\<close>

fun build_loop ::
  "funcdef list \<Rightarrow> ref \<Rightarrow> astparser \<Rightarrow> record_st \<Rightarrow> ref \<times> astparser \<times> record_st" where
  "build_loop [] function_strings a rs = (function_strings, a, rs)"
| "build_loop (function_node # rest) function_strings a rs =
     (let a1 = a\<lparr>heap := (heap a)(function_strings := [])\<rparr>;
          (function_strings', a2) = locate_func_strings a1 function_node;
          rs' = fold (add_func_str_to_list (fst function_node)) (heap a2 function_strings') rs
      in build_loop rest function_strings' a2 rs')"

text \<open>\<open>AstParser.build_function_str_pairs\<close>\<close>

definition build_function_str_pairs ::
  "astparser \<Rightarrow> record_st \<Rightarrow> node \<Rightarrow> error option \<times> astparser \<times> record_st" where
  "build_function_str_pairs a rs ast =
     (case locate_functions a ast of
        (Inl e, a1) \<Rightarrow> (Some e, a1, rs)
      | (Inr function_list, a1) \<Rightarrow>
          (let (function_strings, a2) = new_list a1;
               (function_strings', a3, rs1) = build_loop function_list function_strings a2 rs
           in (None, AstParser_init a3, sort_tmp_list rs1)))"

text \<open>
  \<open>AstParser.process_ast\<close>; \<open>sys.getsizeof\<close> is a parameter.
\<close>

definition MIN_BYTES :: nat where
  "MIN_BYTES = 10"

definition process_ast ::
  "(node \<Rightarrow> nat) \<Rightarrow> astparser \<Rightarrow> record_st \<Rightarrow> node \<Rightarrow> error option \<times> astparser \<times> record_st" where
  "process_ast getsizeof a rs ast =
     (if getsizeof ast < MIN_BYTES then (Some AstEmptyError, a, rs)
      else build_function_str_pairs a rs ast)"

subsection \<open>Interface and Core\<close>

text \<open>
  \<open>parse_requests\<close> lists the paths handed to the external tree producer so far, in order.
\<close>

record interface =
  ast :: "node option"
  json_data :: "string option"
  parse_requests :: "string list"

record file_io =
  name :: string
  mode :: string

record core =
  intr :: interface
  astp :: astparser

text \<open>
  \<open>Interface.load_new_ast\<close>; the producer (\<open>os.path.getsize\<close> and \<open>parse_file\<close>) is the
  parameter \<open>producer\<close>, which yields a tree or fails.
\<close>

definition load_new_ast ::
  "(string \<Rightarrow> node option) \<Rightarrow> interface \<Rightarrow> string \<Rightarrow> (error + node) \<times> interface" where
  "load_new_ast producer i file_path =
     (if file_path = [] then (Inl NoneFilePathError, i)
      else (let i1 = i\<lparr>parse_requests := parse_requests i @ [file_path]\<rparr>
            in case producer file_path of
                 None \<Rightarrow> (Inl ProducerError, i1)
               | Some t \<Rightarrow> (Inr t, i1\<lparr>ast := Some t\<rparr>)))"

text \<open>\<open>Interface.process_out_data\<close>, on the text of \<open>self.json_data\<close>.\<close>

definition process_out_data :: "string \<Rightarrow> string" where
  "process_out_data json = py_replace [backslash, backslash] [backslash] json"

text \<open>
  \<open>json.dumps(data, indent=4, sort_keys=True)\<close> for a dictionary from strings to strings,
  given as the list of its items. A string is written by \<open>py_encode_basestring_ascii\<close>:
  between double quotes, with the double quote and the backslash escaped by a backslash,
  the five control characters that have a letter escape written with it, every other
  character outside the range from space to tilde written as \<open>u\<close> and four hexadecimal
  digits after a backslash, and all other characters as they are. The items are sorted
  by key; with an indent the item separator is a comma and the key separator a colon and
  a space. The function that encodes a string is a parameter of \<open>json_dumps_with\<close>, so
  that the text after \<open>process_out_data\<close> can be stated with it.
\<close>

definition hex_digit :: "nat \<Rightarrow> char" where
  "hex_digit n = ''0123456789abcdef'' ! (n mod 16)"

definition escape_char :: "char \<Rightarrow> string" where
  "escape_char c =
     (if c = dquote then [backslash, dquote]
      else if c = backslash then [backslash, backslash]
      else if c = CHR 0x0A then [backslash, CHR ''n'']
      else if c = CHR 0x0D then [backslash, CHR ''r'']
      else if c = CHR 0x09 then [backslash, CHR ''t'']
      else if c = CHR 0x08 then [backslash, CHR ''b'']
      else if c = CHR 0x0C then [backslash, CHR ''f'']
      else if 32 \<le> (of_char c :: nat) \<and> (of_char c :: nat) \<le> 126 then [c]
      else [backslash, CHR ''u'', CHR ''0'', CHR ''0'',
            hex_digit (of_char c div 16), hex_digit (of_char c mod 16)])"

definition escape_ascii :: "string \<Rightarrow> string" where
  "escape_ascii s = concat (map escape_char s)"

definition py_encode_basestring_ascii :: "string \<Rightarrow> string" where
  "py_encode_basestring_ascii s = dquote # escape_ascii s @ [dquote]"

definition newline_indent :: string where
  "newline_indent = CHR 0x0A # ''    ''"

definition json_item :: "(string \<Rightarrow> string) \<Rightarrow> string \<times> string \<Rightarrow> string" where
  "json_item enc kv = enc (fst kv) @ '': '' @ enc (snd kv)"

fun json_join :: "string list \<Rightarrow> string" where
  "json_join [] = []"
| "json_join [x] = x"
| "json_join (x # y # zs) = x @ '','' @ newline_indent @ json_join (y # zs)"

definition json_dumps_with :: "(string \<Rightarrow> string) \<Rightarrow> (string \<times> string) list \<Rightarrow> string" where
  "json_dumps_with enc items =
     (if items = [] then ''{}''
      else ''{'' @ newline_indent @ json_join (map (json_item enc) (sort_key fst items))
           @ [CHR 0x0A] @ ''}'')"

definition json_dumps :: "(string \<times> string) list \<Rightarrow> string" where
  "json_dumps items = json_dumps_with py_encode_basestring_ascii items"

text \<open>
  \<open>Interface.convert_dict_to_json\<close>: the text of \<open>json.dumps\<close>, then \<open>process_out_data\<close> on
  it.
\<close>

definition convert_dict_to_json :: "interface \<Rightarrow> (string \<times> string) list \<Rightarrow> interface" where
  "convert_dict_to_json i data = i\<lparr>json_data := Some (process_out_data (json_dumps data))\<rparr>"

text \<open>The loop of \<open>Core.process_files\<close> over the files.\<close>

fun process_loop ::
  "(string \<Rightarrow> node option) \<Rightarrow> (node \<Rightarrow> nat) \<Rightarrow> file_io list \<Rightarrow> core \<Rightarrow> record_st
     \<Rightarrow> error option \<times> core \<times> record_st" where
  "process_loop producer getsizeof [] c rs = (None, c, rs)"
| "process_loop producer getsizeof (f_str # rest) c rs =
     (case load_new_ast producer (intr c) (name f_str) of
        (Inl e, i1) \<Rightarrow> (Some e, c\<lparr>intr := i1\<rparr>, rs)
      | (Inr t, i1) \<Rightarrow>
          (case process_ast getsizeof (astp c) rs t of
             (Some e, a1, rs1) \<Rightarrow> (Some e, c\<lparr>intr := i1, astp := a1\<rparr>, rs1)
           | (None, a1, rs1) \<Rightarrow>
               process_loop producer getsizeof rest (c\<lparr>intr := i1, astp := a1\<rparr>) rs1))"

text \<open>\<open>Core.process_files\<close>\<close>

definition process_files ::
  "(string \<Rightarrow> node option) \<Rightarrow> (node \<Rightarrow> nat) \<Rightarrow> core \<Rightarrow> record_st \<Rightarrow> file_io list
     \<Rightarrow> error option \<times> core \<times> record_st" where
  "process_files producer getsizeof c rs files =
     (if files = [] then (Some NoFilesSpecifiedError, c, rs)
      else (case process_loop producer getsizeof files c rs of
              (Some e, c1, rs1) \<Rightarrow> (Some e, c1, rs1)
            | (None, c1, rs1) \<Rightarrow> (None, c1, integrate_list_to_dict rs1)))"

subsection \<open>Notions used in the statements\<close>

text \<open>
  The associations of one function: its name paired with each string value of its own
  body, in traversal order.
\<close>

definition own_associations :: "funcdef \<Rightarrow> (string \<times> string) list" where
  "own_associations fd = map (Pair (fst fd)) (literals_of (FuncDef (fst fd) (snd fd)))"

text \<open>
  The quote and backslash normalization of a literal value, as the pipeline applies it:
  \<open>visit_Constant\<close> removes the double quotes, \<open>json.dumps\<close> escapes the value when it
  writes it as a key, and \<open>process_out_data\<close> collapses the backslash pairs of the JSON
  text. The key stands in the bundle as this string between double quotes.
\<close>

definition normalization :: "string \<Rightarrow> string" where
  "normalization v = process_out_data (escape_ascii (py_replace [dquote] [] v))"

text \<open>A character from space to tilde other than the double quote.\<close>

definition printable :: "char \<Rightarrow> bool" where
  "printable c = (32 \<le> (of_char c :: nat) \<and> (of_char c :: nat) \<le> 126 \<and> c \<noteq> dquote)"

text \<open>
  The literal value as the specification words it: one leading and one trailing double
  quote removed, then backslash pairs collapsed.
\<close>

definition strip_wrapping_quotes :: "string \<Rightarrow> string" where
  "strip_wrapping_quotes s =
     (if 2 \<le> length s \<and> hd s = dquote \<and> last s = dquote then butlast (tl s) else s)"

definition spec_literal_value :: "string \<Rightarrow> string" where
  "spec_literal_value s = process_out_data (strip_wrapping_quotes s)"

section \<open>Properties\<close>

subsection \<open>Facts about the Record operations\<close>

lemma fold_filter_removals:
  "fold (\<lambda>removal l. filter (\<lambda>i. snd i \<noteq> removal) l) rem tpl
     = filter (\<lambda>i. snd i \<notin> set rem) tpl"
  by (induction rem arbitrary: tpl) (auto intro: filter_cong)

text \<open>The three loops of the removal keep exactly the tuples whose string occurs once.\<close>

lemma remove_non_unique_filter:
  "remove_non_unique tpl = filter (\<lambda>i. count_list (map snd tpl) (snd i) = 1) tpl"
proof -
  have "count_list (map snd tpl) (snd i) \<noteq> 0" if "i \<in> set tpl" for i
    using that by (simp add: count_list_0_iff)
  then have "\<not> count_list (map snd tpl) (snd i) > 1 \<longleftrightarrow> count_list (map snd tpl) (snd i) = 1"
    if "i \<in> set tpl" for i
    using that by fastforce
  then have "filter (\<lambda>i. snd i \<notin> set (filter (\<lambda>s. count_list (map snd tpl) s > 1) (map snd tpl))) tpl
        = filter (\<lambda>i. count_list (map snd tpl) (snd i) = 1) tpl"
    by (intro filter_cong) auto
  then show ?thesis
    by (simp add: remove_non_unique_def Let_def fold_filter_removals)
qed

lemma py_dict_fold:
  "fold (\<lambda>kv m. m(fst kv \<mapsto> snd kv)) pairs m = m ++ map_of (rev pairs)"
  by (induction pairs arbitrary: m) (auto simp: map_add_upd_left)

lemma py_dict_map_of: "py_dict pairs = map_of (rev pairs)"
  by (simp add: py_dict_def py_dict_fold)

lemma distinct_filter_count:
  "(\<And>s. s \<in> set xs \<Longrightarrow> P s \<Longrightarrow> count_list xs s \<le> 1) \<Longrightarrow> distinct (filter P xs)"
proof (induction xs)
  case Nil
  then show ?case by simp
next
  case (Cons x xs)
  have ih: "distinct (filter P xs)"
  proof (rule Cons.IH)
    fix s assume "s \<in> set xs" "P s"
    then have "count_list (x # xs) s \<le> 1" using Cons.prems [of s] by simp
    then show "count_list xs s \<le> 1" by (simp split: if_splits)
  qed
  show ?case
  proof (cases "P x")
    case True
    then have "count_list (x # xs) x \<le> 1" using Cons.prems [of x] by simp
    then have "count_list xs x = 0" by simp
    then have "x \<notin> set xs" by (simp add: count_list_0_iff)
    then show ?thesis using ih True by simp
  next
    case False
    then show ?thesis using ih by simp
  qed
qed

lemma distinct_count_one: "distinct (filter (\<lambda>s. count_list xs s = 1) xs)"
  by (rule distinct_filter_count) simp

lemma distinct_survivors: "distinct (map snd (remove_non_unique tpl))"
proof -
  let ?xs = "map snd tpl"
  have "map snd (remove_non_unique tpl) = filter (\<lambda>s. count_list ?xs s = 1) ?xs"
    by (simp add: remove_non_unique_filter filter_map comp_def)
  moreover have "distinct (filter (\<lambda>s. count_list ?xs s = 1) ?xs)"
    by (rule distinct_count_one)
  ultimately show ?thesis by simp
qed

lemma tpl_list_integrate:
  "tpl_list (integrate_list_to_dict rs) = sort_key fst (remove_non_unique (tpl_list rs))"
  by (simp add: integrate_list_to_dict_def add_unique_to_dict_def sort_tmp_list_def
      remove_non_unique_from_list_def Let_def)

lemma str_func_dict_integrate:
  "str_func_dict (integrate_list_to_dict rs)
     = str_func_dict rs ++ py_dict (reverse_pairs (sort_key fst (remove_non_unique (tpl_list rs))))"
  by (simp add: integrate_list_to_dict_def add_unique_to_dict_def sort_tmp_list_def
      remove_non_unique_from_list_def Let_def)

lemma dom_py_dict_reverse: "dom (py_dict (reverse_pairs l)) = snd ` set l"
  by (force simp: py_dict_map_of reverse_pairs_def dom_map_of_conv_image_fst)

lemma py_dict_reverse_distinct:
  assumes "distinct (map snd l)"
  shows "py_dict (reverse_pairs l) s = Some f \<longleftrightarrow> (f, s) \<in> set l"
proof -
  have "distinct (map fst (rev (reverse_pairs l)))"
    using assms by (simp add: reverse_pairs_def rev_map [symmetric] comp_def)
  then have "map_of (rev (reverse_pairs l)) s = Some f \<longleftrightarrow> (s, f) \<in> set (rev (reverse_pairs l))"
    by (rule map_of_eq_Some_iff)
  also have "\<dots> \<longleftrightarrow> (f, s) \<in> set l"
    by (force simp: reverse_pairs_def)
  finally show ?thesis by (simp add: py_dict_map_of)
qed

lemma distinct_sorted_survivors: "distinct (map snd (sort_key fst (remove_non_unique tpl)))"
  using distinct_survivors [of tpl] by (simp add: distinct_map)

lemma set_survivors:
  "set (remove_non_unique tpl) = {i \<in> set tpl. count_list (map snd tpl) (snd i) = 1}"
  by (simp add: remove_non_unique_filter)

lemma snd_survivors:
  "snd ` set (remove_non_unique tpl) = {k. count_list (map snd tpl) k = 1}"
proof -
  have "k \<in> snd ` set tpl" if "count_list (map snd tpl) k = 1" for k
    using that count_list_0_iff [of "map snd tpl" k] by (cases "k \<in> snd ` set tpl") simp_all
  then show ?thesis
    by (auto simp: set_survivors image_iff)
qed

lemma dom_integrate:
  "dom (str_func_dict (integrate_list_to_dict rs))
     = dom (str_func_dict rs) \<union> {k. count_list (map snd (tpl_list rs)) k = 1}"
  by (simp add: str_func_dict_integrate dom_py_dict_reverse snd_survivors Un_commute)

lemma count_list_mset_snd:
  "count_list (map snd tpl) s = count (image_mset snd (mset tpl)) s"
  by (simp add: count_mset [symmetric])

lemma mset_single_list: "mset xs = {#x#} \<Longrightarrow> xs = [x]"
  by (cases xs) auto

subsection \<open>Facts about the visitors and the builder loop\<close>

text \<open>The visitor appends the string values of the subtree to its list.\<close>

lemma strip_quotes_filter: "py_replace [dquote] [] s = filter (\<lambda>c. c \<noteq> dquote) s"
  by (induction s) auto

lemma visit_Constant_literal: "visit_Constant v vals = vals @ literal_of v"
  by (simp add: visit_Constant_def literal_of_def strip_quotes_filter Let_def)

lemma fold_const_visit:
  assumes "\<And>c vals. c \<in> set cs \<Longrightarrow> const_visit c vals = vals @ literals_of c"
  shows "fold const_visit cs vals = vals @ concat (map literals_of cs)"
  using assms by (induction cs arbitrary: vals) auto

lemma const_visit_literals: "const_visit n vals = vals @ literals_of n"
proof (induction n arbitrary: vals)
  case (Constant v)
  show ?case by (simp add: visit_Constant_literal)
next
  case (FuncDef n cs)
  then show ?case by (simp add: fold_const_visit)
next
  case (Node cs)
  then show ?case by (simp add: fold_const_visit)
qed

lemma tpl_list_fold_add:
  "tpl_list (fold (add_func_str_to_list f) ss rs) = tpl_list rs @ map (Pair f) ss"
  by (induction ss arbitrary: rs) (auto simp: add_func_str_to_list_def)

lemma fold_add_eq:
  "fold (add_func_str_to_list f) ss rs = rs\<lparr>tpl_list := tpl_list rs @ map (Pair f) ss\<rparr>"
  by (induction ss arbitrary: rs) (auto simp: add_func_str_to_list_def)

lemma build_loop_own:
  assumes "function_strings = const_values a \<or> heap a (const_values a) = []"
  shows "\<exists>fs' a'. build_loop fns function_strings a rs
           = (fs', a', rs\<lparr>tpl_list := tpl_list rs @ concat (map own_associations fns)\<rparr>)
         \<and> const_values a' = const_values a \<and> func_nodes a' = func_nodes a
         \<and> next_ref a' = next_ref a"
  using assms
proof (induction fns arbitrary: function_strings a rs)
  case Nil
  then show ?case by simp
next
  case (Cons fd fns)
  let ?r = "const_values a"
  let ?a2 = "a\<lparr>heap := (heap a)(function_strings := [], ?r := literals_of (FuncDef (fst fd) (snd fd)))\<rparr>"
  let ?rs' = "rs\<lparr>tpl_list := tpl_list rs @ own_associations fd\<rparr>"
  have cleared: "((heap a)(function_strings := [])) ?r = []"
    using Cons.prems by auto
  have step: "build_loop (fd # fns) function_strings a rs = build_loop fns ?r ?a2 ?rs'"
    using cleared
    by (simp add: locate_func_strings_def Let_def const_visit_literals fold_add_eq
        own_associations_def)
  from Cons.IH [of ?r ?a2 ?rs'] show ?case
    unfolding step by auto
qed

text \<open>
  A pass over a tree with the function \<open>f2\<close>, which uses \<open>shared\<close> twice, and the function
  \<open>f1\<close>, which uses \<open>shared\<close>, the number \<open>7\<close> and \<open>only_f1\<close>.
\<close>

lemma two_function_pass:
  "snd (snd (build_function_str_pairs
     (AstParser_init \<lparr>heap = \<lambda>r. [], next_ref = 0, const_values = 0, func_nodes = []\<rparr>)
     \<lparr>tpl_list = [], str_func_dict = Map.empty\<rparr>
     (Node [FuncDef ''f2'' [Constant (dquote # ''shared'' @ [dquote]),
                            Node [Constant (dquote # ''shared'' @ [dquote])]],
            FuncDef ''f1'' [Constant (dquote # ''shared'' @ [dquote]), Constant ''7'',
                            Constant (dquote # ''only_f1'' @ [dquote])]])))
   = \<lparr>tpl_list = [(''f1'', ''shared''), (''f1'', ''only_f1''), (''f2'', ''shared''),
                  (''f2'', ''shared'')],
      str_func_dict = Map.empty\<rparr>"
  by (simp add: build_function_str_pairs_def locate_functions_def check_num_ast_functions_def
      visit_FuncDef_def new_list_def AstParser_init_def locate_func_strings_def
      visit_Constant_def py_int_parses_def py_isspace_def py_isdigit_def
      add_func_str_to_list_def sort_tmp_list_def Let_def)

text \<open>
  A pass over a tree with the function \<open>f1\<close>, which uses \<open>shared\<close> once and \<open>only_f1\<close> twice,
  and the function \<open>f2\<close>, which uses \<open>shared\<close>.
\<close>

lemma repeated_literal_pass:
  "snd (snd (build_function_str_pairs
     (AstParser_init \<lparr>heap = \<lambda>r. [], next_ref = 0, const_values = 0, func_nodes = []\<rparr>)
     \<lparr>tpl_list = [], str_func_dict = Map.empty\<rparr>
     (Node [FuncDef ''f1'' [Constant (dquote # ''shared'' @ [dquote]),
                            Constant (dquote # ''only_f1'' @ [dquote]),
                            Constant (dquote # ''only_f1'' @ [dquote])],
            FuncDef ''f2'' [Constant (dquote # ''shared'' @ [dquote])]])))
   = \<lparr>tpl_list = [(''f1'', ''shared''), (''f1'', ''only_f1''), (''f1'', ''only_f1''),
                  (''f2'', ''shared'')],
      str_func_dict = Map.empty\<rparr>"
  by (simp add: build_function_str_pairs_def locate_functions_def check_num_ast_functions_def
      visit_FuncDef_def new_list_def AstParser_init_def locate_func_strings_def
      visit_Constant_def py_int_parses_def py_isspace_def py_isdigit_def
      add_func_str_to_list_def sort_tmp_list_def Let_def)

subsection \<open>Facts about the two replacements\<close>

lemma pod_Nil: "process_out_data [] = []"
  by (simp add: process_out_data_def)

lemma pod_single: "process_out_data [c] = [c]"
  by (simp add: process_out_data_def)

lemma pod_pair:
  "process_out_data (backslash # backslash # cs) = backslash # process_out_data cs"
  by (simp add: process_out_data_def)

lemma pod_other:
  "\<not> (a = backslash \<and> b = backslash)
     \<Longrightarrow> process_out_data (a # b # cs) = a # process_out_data (b # cs)"
  by (auto simp: process_out_data_def)

lemma pod_Cons_other: "c \<noteq> backslash \<Longrightarrow> process_out_data (c # s) = c # process_out_data s"
  by (cases s) (simp_all add: pod_single pod_Nil pod_other)


lemma pod_append_sep:
  "c \<noteq> backslash
     \<Longrightarrow> process_out_data (xs @ c # ys) = process_out_data xs @ c # process_out_data ys"
proof (induction "length xs" arbitrary: xs rule: less_induct)
  case less
  show ?case
  proof (cases xs)
    case Nil
    then show ?thesis using less.prems by (simp add: pod_Nil pod_Cons_other)
  next
    case (Cons a t)
    note xs = this
    show ?thesis
    proof (cases t)
      case Nil
      have "process_out_data (a # c # ys) = a # process_out_data (c # ys)"
        using less.prems by (intro pod_other) simp
      then show ?thesis
        using xs Nil less.prems by (simp add: pod_Cons_other pod_single)
    next
      case (Cons b u)
      show ?thesis
      proof (cases "a = backslash \<and> b = backslash")
        case True
        have "process_out_data (u @ c # ys) = process_out_data u @ c # process_out_data ys"
          using less.hyps [of u] less.prems xs Cons by simp
        then show ?thesis
          using True xs Cons by (simp add: pod_pair)
      next
        case False
        have "process_out_data ((b # u) @ c # ys)
                = process_out_data (b # u) @ c # process_out_data ys"
          using less.hyps [of "b # u"] less.prems xs Cons by simp
        then show ?thesis
          using False xs Cons by (simp add: pod_other)
      qed
    qed
  qed
qed




lemma pod_escape_printable: "list_all printable w \<Longrightarrow> process_out_data (escape_ascii w) = w"
proof (induction w)
  case Nil
  then show ?case by (simp add: escape_ascii_def pod_Nil)
next
  case (Cons c w)
  then have ih: "process_out_data (escape_ascii w) = w" by simp
  have pc: "printable c" using Cons.prems by simp
  show ?case
  proof (cases "c = backslash")
    case True
    then have "escape_ascii (c # w) = backslash # backslash # escape_ascii w"
      by (simp add: escape_ascii_def escape_char_def)
    then show ?thesis using True ih by (simp add: pod_pair)
  next
    case False
    then have "escape_ascii (c # w) = c # escape_ascii w"
      using pc by (auto simp: escape_ascii_def escape_char_def printable_def)
    then show ?thesis using False ih by (simp add: pod_Cons_other)
  qed
qed



lemma pod_encode_append:
  "process_out_data (py_encode_basestring_ascii s @ rest)
     = dquote # process_out_data (escape_ascii s) @ dquote # process_out_data rest"
  by (simp add: py_encode_basestring_ascii_def pod_Cons_other pod_append_sep)

lemma pod_encode:
  "process_out_data (py_encode_basestring_ascii s)
     = dquote # process_out_data (escape_ascii s) @ [dquote]"
  using pod_encode_append [of s "[]"] by (simp add: pod_Nil)

lemma pod_item_append:
  "process_out_data (json_item py_encode_basestring_ascii kv @ rest)
     = json_item (\<lambda>s. dquote # process_out_data (escape_ascii s) @ [dquote]) kv
       @ process_out_data rest"
  by (simp add: json_item_def pod_encode_append pod_Cons_other)

lemma pod_join_append:
  "process_out_data (json_join (map (json_item py_encode_basestring_ascii) items) @ rest)
     = json_join (map (json_item (\<lambda>s. dquote # process_out_data (escape_ascii s) @ [dquote])) items)
       @ process_out_data rest"
proof (induction items)
  case Nil
  then show ?case by simp
next
  case (Cons kv items)
  show ?case
  proof (cases items)
    case Nil
    then show ?thesis by (simp add: pod_item_append)
  next
    case (Cons kv' items')
    have "process_out_data ('','' @ newline_indent @ t)
            = '','' @ newline_indent @ process_out_data t" for t
      by (simp add: newline_indent_def pod_Cons_other)
    then show ?thesis
      using Cons.IH Cons by (simp add: pod_item_append)
  qed
qed

text \<open>
  The text \<open>convert_dict_to_json\<close> stores: the text of \<open>json.dumps\<close> with every string
  written as its escaped form after \<open>process_out_data\<close>, between double quotes.
\<close>

lemma pod_json_dumps:
  "process_out_data (json_dumps items)
     = json_dumps_with (\<lambda>s. dquote # process_out_data (escape_ascii s) @ [dquote]) items"
proof (cases "items = []")
  case True
  then show ?thesis
    by (simp add: json_dumps_def json_dumps_with_def pod_Cons_other pod_Nil)
next
  case False
  have "process_out_data (''{'' @ newline_indent @ t) = ''{'' @ newline_indent @ process_out_data t"
    for t
    by (simp add: newline_indent_def pod_Cons_other)
  moreover have "process_out_data ([CHR 0x0A] @ ''}'') = [CHR 0x0A] @ ''}''"
    by (simp add: pod_Cons_other pod_Nil)
  ultimately show ?thesis
    using False by (simp add: json_dumps_def json_dumps_with_def pod_join_append)
qed

text \<open>The key of a literal stands in the bundle as its normalization between double quotes.\<close>

lemma bundle_key_normalization:
  "process_out_data (py_encode_basestring_ascii (py_replace [dquote] [] v))
     = dquote # normalization v @ [dquote]"
  by (simp add: pod_encode normalization_def)

lemma convert_dict_to_json_text:
  "json_data (convert_dict_to_json i data)
     = Some (json_dumps_with (\<lambda>s. dquote # process_out_data (escape_ascii s) @ [dquote]) data)"
  by (simp add: convert_dict_to_json_def pod_json_dumps)

lemma filter_wrapped:
  assumes "dquote \<notin> set (strip_wrapping_quotes v)"
  shows "filter (\<lambda>c. c \<noteq> dquote) v = strip_wrapping_quotes v"
proof (cases "2 \<le> length v \<and> hd v = dquote \<and> last v = dquote")
  case True
  then obtain t where vt: "v = dquote # t"
    by (cases v) auto
  have t: "t \<noteq> []"
    using True vt by auto
  have lt: "last t = dquote"
    using True vt t by simp
  have "butlast t @ [dquote] = t"
    using append_butlast_last_id [OF t] lt by simp
  then have v: "v = dquote # butlast (tl v) @ [dquote]"
    using vt by simp
  have mid: "dquote \<notin> set (butlast (tl v))"
    using assms True by (simp add: strip_wrapping_quotes_def)
  have "filter (\<lambda>c. c \<noteq> dquote) (dquote # butlast (tl v) @ [dquote]) = butlast (tl v)"
    using mid by (auto simp: filter_id_conv)
  then show ?thesis
    using True v by (simp add: strip_wrapping_quotes_def)
next
  case False
  then have "strip_wrapping_quotes v = v"
    unfolding strip_wrapping_quotes_def by (simp only: if_False)
  then show ?thesis
    using assms by (auto simp: filter_id_conv)
qed

subsection \<open>Claims\<close>

text \<open>
  C9. For the empty list of input files, \<open>Core.process_files\<close> raises
  \<open>NoFilesSpecifiedError\<close>; the interface (and with it the list of paths handed to the tree
  producer), the parser, the candidate list and the output mapping are what they were
  before the call, so no tree has been requested.
\<close>

theorem process_files_no_files:
  "process_files producer getsizeof c rs [] = (Some NoFilesSpecifiedError, c, rs)"
  by (simp add: process_files_def)

text \<open>
  C1. One pass of \<open>AstParser.build_function_str_pairs\<close> over a tree, on a parser as
  \<open>__init__\<close> leaves it (empty \<open>values\<close>, empty \<open>nodes\<close>) and with at least one function
  in the tree: the candidate list afterwards is the earlier list followed, function by
  function in traversal order, by the function's name paired with the string values of
  that function's own body, the whole sorted by function name. No value of one function
  is attributed to the next. The parser is again as \<open>__init__\<close> leaves it.
\<close>

theorem build_function_str_pairs_own_literals:
  assumes "heap a (const_values a) = []" and "func_nodes a = []" and "func_visit tree [] \<noteq> []"
  shows "\<exists>a'. build_function_str_pairs a rs tree
           = (None, a',
              rs\<lparr>tpl_list :=
                   sort_key fst (tpl_list rs @ concat (map own_associations (func_visit tree [])))\<rparr>)
         \<and> heap a' (const_values a') = [] \<and> func_nodes a' = []"
proof -
  let ?fns = "func_visit tree []"
  let ?a1 = "a\<lparr>func_nodes := ?fns\<rparr>"
  let ?a2 = "snd (new_list ?a1)"
  let ?fs = "fst (new_list ?a1)"
  have loc: "locate_functions a tree = (Inr ?fns, ?a1)"
    using assms(2,3) by (simp add: locate_functions_def check_num_ast_functions_def Let_def)
  have "?fs = const_values ?a2 \<or> heap ?a2 (const_values ?a2) = []"
    using assms(1) by (simp add: new_list_def)
  from build_loop_own [OF this, of ?fns rs]
  obtain fs' a3 where
    loop: "build_loop ?fns ?fs ?a2 rs
             = (fs', a3, rs\<lparr>tpl_list := tpl_list rs @ concat (map own_associations ?fns)\<rparr>)"
    by blast
  have "build_function_str_pairs a rs tree
          = (None, AstParser_init a3,
             sort_tmp_list (rs\<lparr>tpl_list := tpl_list rs @ concat (map own_associations ?fns)\<rparr>))"
    using loop by (simp add: build_function_str_pairs_def loc case_prod_beta)
  moreover have "heap (AstParser_init a3) (const_values (AstParser_init a3)) = []"
    and "func_nodes (AstParser_init a3) = []"
    by (simp_all add: AstParser_init_def new_list_def)
  ultimately show ?thesis
    by (simp add: sort_tmp_list_def)
qed

theorem build_function_str_pairs_own_literals_witness:
  "heap (AstParser_init \<lparr>heap = \<lambda>r. [], next_ref = 0, const_values = 0, func_nodes = []\<rparr>)
     (const_values (AstParser_init \<lparr>heap = \<lambda>r. [], next_ref = 0, const_values = 0, func_nodes = []\<rparr>))
     = []
   \<and> func_nodes (AstParser_init \<lparr>heap = \<lambda>r. [], next_ref = 0, const_values = 0, func_nodes = []\<rparr>)
     = []
   \<and> func_visit
       (Node [FuncDef ''f1'' [Node [Constant (dquote # ''shared'' @ [dquote]),
                                    Constant (dquote # ''only_f1'' @ [dquote])]],
              FuncDef ''f2'' [Constant ''42'', Constant (dquote # ''shared'' @ [dquote])]]) []
       \<noteq> []
   \<and> (\<exists>a'. build_function_str_pairs
         (AstParser_init \<lparr>heap = \<lambda>r. [], next_ref = 0, const_values = 0, func_nodes = []\<rparr>)
         \<lparr>tpl_list = [], str_func_dict = Map.empty\<rparr>
         (Node [FuncDef ''f1'' [Node [Constant (dquote # ''shared'' @ [dquote]),
                                      Constant (dquote # ''only_f1'' @ [dquote])]],
                FuncDef ''f2'' [Constant ''42'', Constant (dquote # ''shared'' @ [dquote])]])
       = (None, a',
          \<lparr>tpl_list = [(''f1'', ''shared''), (''f1'', ''only_f1''), (''f2'', ''shared'')],
           str_func_dict = Map.empty\<rparr>))"
proof -
  let ?a = "AstParser_init \<lparr>heap = \<lambda>r. [], next_ref = 0, const_values = 0, func_nodes = []\<rparr>"
  let ?ast = "Node [FuncDef ''f1'' [Node [Constant (dquote # ''shared'' @ [dquote]),
                                      Constant (dquote # ''only_f1'' @ [dquote])]],
                FuncDef ''f2'' [Constant ''42'', Constant (dquote # ''shared'' @ [dquote])]]"
  have h1: "heap ?a (const_values ?a) = []" and h2: "func_nodes ?a = []"
    by (simp_all add: AstParser_init_def new_list_def)
  have fv: "func_visit ?ast []
      = [(''f1'', [Node [Constant (dquote # ''shared'' @ [dquote]),
                         Constant (dquote # ''only_f1'' @ [dquote])]]),
         (''f2'', [Constant ''42'', Constant (dquote # ''shared'' @ [dquote])])]"
    by (simp add: visit_FuncDef_def)
  have h3: "func_visit ?ast [] \<noteq> []"
    unfolding fv by simp
  have own: "concat (map own_associations (func_visit ?ast []))
      = [(''f1'', ''shared''), (''f1'', ''only_f1''), (''f2'', ''shared'')]"
    unfolding fv
    by (simp add: own_associations_def literal_of_def py_int_parses_def py_isspace_def
        py_isdigit_def)
  from build_function_str_pairs_own_literals
    [OF h1 h2 h3, of "\<lparr>tpl_list = [], str_func_dict = Map.empty\<rparr>"]
  show ?thesis
    unfolding own using h1 h2 h3 by auto
qed

text \<open>
  C4, as stated, fails: the text of the empty string literal (two double quotes) does not
  parse as an integer, and nothing is kept for it.
\<close>

theorem empty_string_literal_not_kept:
  "\<not> py_int_parses [dquote, dquote] \<and> visit_Constant [dquote, dquote] [] = []"
  by (simp add: visit_Constant_def py_int_parses_def py_isspace_def py_isdigit_def)

text \<open>
  C4, amended. The filter keeps a value for a constant node exactly when the text fails
  the integer parse and is not empty once its double quotes are removed; the value kept
  is the text without its double quotes. The text \<open>42\<close> is discarded, the text \<open>3.14\<close> is
  kept as a string.
\<close>

theorem visit_Constant_keeps:
  "visit_Constant v vals
     = (if \<not> py_int_parses v \<and> filter (\<lambda>c. c \<noteq> dquote) v \<noteq> []
        then vals @ [filter (\<lambda>c. c \<noteq> dquote) v] else vals)
   \<and> visit_Constant ''42'' vals = vals
   \<and> visit_Constant ''3.14'' vals = vals @ [''3.14'']"
proof -
  have a: "py_int_parses ''42''"
    by (simp add: py_int_parses_def py_isspace_def py_isdigit_def)
  have b: "\<not> py_int_parses ''3.14''"
    by (simp add: py_int_parses_def py_isspace_def py_isdigit_def)
  show ?thesis
    using a b by (simp add: visit_Constant_def strip_quotes_filter Let_def)
qed

text \<open>
  C2, as stated, fails: when \<open>f1\<close> contains \<open>shared\<close> once and \<open>only_f1\<close> twice and \<open>f2\<close>
  contains \<open>shared\<close>, the pass and the adjudication give a mapping without the key
  \<open>only_f1\<close>, because the removal counts occurrences of a string, not functions.
\<close>

theorem repeated_literal_dropped:
  "str_func_dict (integrate_list_to_dict (snd (snd (build_function_str_pairs
     (AstParser_init \<lparr>heap = \<lambda>r. [], next_ref = 0, const_values = 0, func_nodes = []\<rparr>)
     \<lparr>tpl_list = [], str_func_dict = Map.empty\<rparr>
     (Node [FuncDef ''f1'' [Constant (dquote # ''shared'' @ [dquote]),
                            Constant (dquote # ''only_f1'' @ [dquote]),
                            Constant (dquote # ''only_f1'' @ [dquote])],
            FuncDef ''f2'' [Constant (dquote # ''shared'' @ [dquote])]]))))) ''only_f1''
     = None"
  unfolding repeated_literal_pass
  by (simp add: str_func_dict_integrate remove_non_unique_def py_dict_def reverse_pairs_def)

text \<open>
  C2, amended. When the candidate list holds, in any order, \<open>only_f1\<close> with \<open>f1\<close> exactly
  once, \<open>shared\<close> with \<open>f1\<close> at least once and \<open>shared\<close> with \<open>f2\<close> at least once, and
  nothing else, and the output mapping is still empty, the adjudication yields the entry
  \<open>only_f1\<close> \<open>\<mapsto>\<close> \<open>f1\<close>, no entry for \<open>shared\<close>, and no other key.
\<close>

theorem shared_literal_excluded:
  assumes "mset (tpl_list rs)
             = {#(f1, ''only_f1'')#} + replicate_mset m (f1, ''shared'')
               + replicate_mset n (f2, ''shared'')"
    and "1 \<le> m" and "1 \<le> n"
    and "str_func_dict rs = Map.empty"
  shows "str_func_dict (integrate_list_to_dict rs) ''only_f1'' = Some f1
         \<and> str_func_dict (integrate_list_to_dict rs) ''shared'' = None
         \<and> dom (str_func_dict (integrate_list_to_dict rs)) = {''only_f1''}"
proof -
  let ?tpl = "tpl_list rs"
  have cnt: "count_list (map snd ?tpl) s
               = (if s = ''shared'' then m + n else if s = ''only_f1'' then 1 else 0)" for s
    by (simp add: count_list_mset_snd assms(1))
  have "mset (remove_non_unique ?tpl) = {#(f1, ''only_f1'')#}"
    unfolding remove_non_unique_filter mset_filter assms(1)
    using assms(2,3) by (simp add: cnt filter_mset_eq_conv)
  then have sv: "remove_non_unique ?tpl = [(f1, ''only_f1'')]"
    by (rule mset_single_list)
  have "str_func_dict (integrate_list_to_dict rs) = [''only_f1'' \<mapsto> f1]"
    by (simp add: str_func_dict_integrate sv assms(4) py_dict_def reverse_pairs_def)
  then show ?thesis by simp
qed

theorem shared_literal_excluded_witness:
  "mset (tpl_list (snd (snd (build_function_str_pairs
     (AstParser_init \<lparr>heap = \<lambda>r. [], next_ref = 0, const_values = 0, func_nodes = []\<rparr>)
     \<lparr>tpl_list = [], str_func_dict = Map.empty\<rparr>
     (Node [FuncDef ''f2'' [Constant (dquote # ''shared'' @ [dquote]),
                            Node [Constant (dquote # ''shared'' @ [dquote])]],
            FuncDef ''f1'' [Constant (dquote # ''shared'' @ [dquote]), Constant ''7'',
                            Constant (dquote # ''only_f1'' @ [dquote])]])))))
     = {#(''f1'', ''only_f1'')#} + replicate_mset 1 (''f1'', ''shared'')
       + replicate_mset 2 (''f2'', ''shared'')
   \<and> str_func_dict (integrate_list_to_dict (snd (snd (build_function_str_pairs
     (AstParser_init \<lparr>heap = \<lambda>r. [], next_ref = 0, const_values = 0, func_nodes = []\<rparr>)
     \<lparr>tpl_list = [], str_func_dict = Map.empty\<rparr>
     (Node [FuncDef ''f2'' [Constant (dquote # ''shared'' @ [dquote]),
                            Node [Constant (dquote # ''shared'' @ [dquote])]],
            FuncDef ''f1'' [Constant (dquote # ''shared'' @ [dquote]), Constant ''7'',
                            Constant (dquote # ''only_f1'' @ [dquote])]]))))) ''only_f1''
     = Some ''f1''
   \<and> str_func_dict (integrate_list_to_dict (snd (snd (build_function_str_pairs
     (AstParser_init \<lparr>heap = \<lambda>r. [], next_ref = 0, const_values = 0, func_nodes = []\<rparr>)
     \<lparr>tpl_list = [], str_func_dict = Map.empty\<rparr>
     (Node [FuncDef ''f2'' [Constant (dquote # ''shared'' @ [dquote]),
                            Node [Constant (dquote # ''shared'' @ [dquote])]],
            FuncDef ''f1'' [Constant (dquote # ''shared'' @ [dquote]), Constant ''7'',
                            Constant (dquote # ''only_f1'' @ [dquote])]]))))) ''shared''
     = None"
proof -
  let ?rs = "snd (snd (build_function_str_pairs
     (AstParser_init \<lparr>heap = \<lambda>r. [], next_ref = 0, const_values = 0, func_nodes = []\<rparr>)
     \<lparr>tpl_list = [], str_func_dict = Map.empty\<rparr>
     (Node [FuncDef ''f2'' [Constant (dquote # ''shared'' @ [dquote]),
                            Node [Constant (dquote # ''shared'' @ [dquote])]],
            FuncDef ''f1'' [Constant (dquote # ''shared'' @ [dquote]), Constant ''7'',
                            Constant (dquote # ''only_f1'' @ [dquote])]])))"
  have h1: "mset (tpl_list ?rs)
      = {#(''f1'', ''only_f1'')#} + replicate_mset 1 (''f1'', ''shared'')
        + replicate_mset 2 (''f2'', ''shared'')"
    unfolding two_function_pass by (simp add: numeral_2_eq_2)
  have h2: "str_func_dict ?rs = Map.empty"
    unfolding two_function_pass by simp
  from shared_literal_excluded [OF h1 _ _ h2] h1 show ?thesis
    by simp
qed



text \<open>
  C6, as stated, fails: for the text made of a double quote, \<open>a\<close>, two backslashes, \<open>b\<close>
  and a double quote, the value kept has both backslashes, while the value with the
  wrapping quotes removed and the backslash pair collapsed has one; and the key written
  to the bundle for the kept value has both backslashes too.
\<close>

theorem kept_value_not_collapsed:
  "\<not> py_int_parses [dquote, CHR ''a'', backslash, backslash, CHR ''b'', dquote]
   \<and> visit_Constant [dquote, CHR ''a'', backslash, backslash, CHR ''b'', dquote] []
       = [[CHR ''a'', backslash, backslash, CHR ''b'']]
   \<and> spec_literal_value [dquote, CHR ''a'', backslash, backslash, CHR ''b'', dquote]
       = [CHR ''a'', backslash, CHR ''b'']
   \<and> process_out_data (py_encode_basestring_ascii [CHR ''a'', backslash, backslash, CHR ''b''])
       = [dquote, CHR ''a'', backslash, backslash, CHR ''b'', dquote]"
  by (simp add: visit_Constant_def py_int_parses_def py_isspace_def py_isdigit_def
      spec_literal_value_def strip_wrapping_quotes_def process_out_data_def
      py_encode_basestring_ascii_def escape_ascii_def escape_char_def)

text \<open>
  C6, amended. For a constant node whose text fails the integer parse and has no double
  quote other than one leading and one trailing, the value kept is the text without
  these wrapping quotes, every backslash in place; when that is empty nothing is kept.
  When the kept value has only characters from space to tilde, the key written for it
  into the bundle is the kept value between double quotes: \<open>process_out_data\<close> halves
  the backslashes that \<open>json.dumps\<close> has doubled, so no pair of the value is collapsed.
\<close>

theorem visit_Constant_value:
  assumes "\<not> py_int_parses v" and "dquote \<notin> set (strip_wrapping_quotes v)"
  shows "visit_Constant v vals
           = (if strip_wrapping_quotes v = [] then vals else vals @ [strip_wrapping_quotes v])
         \<and> (list_all printable (strip_wrapping_quotes v) \<longrightarrow>
              process_out_data (py_encode_basestring_ascii (strip_wrapping_quotes v))
                = dquote # strip_wrapping_quotes v @ [dquote])"
  using assms(1) filter_wrapped [OF assms(2)]
  by (simp add: visit_Constant_def strip_quotes_filter Let_def pod_encode pod_escape_printable)

theorem visit_Constant_value_witness:
  "\<not> py_int_parses [dquote, CHR ''a'', backslash, backslash, CHR ''b'', dquote]
   \<and> dquote \<notin> set (strip_wrapping_quotes
                     [dquote, CHR ''a'', backslash, backslash, CHR ''b'', dquote])
   \<and> list_all printable (strip_wrapping_quotes
                     [dquote, CHR ''a'', backslash, backslash, CHR ''b'', dquote])
   \<and> visit_Constant [dquote, CHR ''a'', backslash, backslash, CHR ''b'', dquote] []
       = [[CHR ''a'', backslash, backslash, CHR ''b'']]
   \<and> process_out_data (py_encode_basestring_ascii
         (strip_wrapping_quotes [dquote, CHR ''a'', backslash, backslash, CHR ''b'', dquote]))
       = [dquote, CHR ''a'', backslash, backslash, CHR ''b'', dquote]"
proof -
  let ?v = "[dquote, CHR ''a'', backslash, backslash, CHR ''b'', dquote]"
  have h1: "\<not> py_int_parses ?v"
    by (simp add: py_int_parses_def py_isspace_def py_isdigit_def)
  have sw: "strip_wrapping_quotes ?v = [CHR ''a'', backslash, backslash, CHR ''b'']"
    by (simp add: strip_wrapping_quotes_def)
  have h2: "dquote \<notin> set (strip_wrapping_quotes ?v)"
    unfolding sw by simp
  have h3: "list_all printable (strip_wrapping_quotes ?v)"
    unfolding sw by (simp add: printable_def)
  from visit_Constant_value [OF h1 h2, of "[]"] h1 h2 h3 show ?thesis
    unfolding sw by simp
qed

text \<open>
  C3. After one adjudication that starts from the empty output mapping, a string is a key
  of the mapping exactly when it occurs once as the string component in the candidate
  list the adjudication consumed; so every key occurred exactly once, and a string bound
  to more than one association is never a key.
\<close>

theorem integrate_keys_unique:
  assumes "str_func_dict rs = Map.empty"
  shows "k \<in> dom (str_func_dict (integrate_list_to_dict rs))
           \<longleftrightarrow> count_list (map snd (tpl_list rs)) k = 1"
  using assms by (simp add: dom_integrate)

theorem integrate_keys_unique_witness:
  "str_func_dict \<lparr>tpl_list = [(''f1'', ''shared''), (''f1'', ''only_f1''), (''f2'', ''shared'')],
                   str_func_dict = Map.empty\<rparr> = Map.empty
   \<and> ''only_f1'' \<in> dom (str_func_dict (integrate_list_to_dict
         \<lparr>tpl_list = [(''f1'', ''shared''), (''f1'', ''only_f1''), (''f2'', ''shared'')],
          str_func_dict = Map.empty\<rparr>))
   \<and> ''shared'' \<notin> dom (str_func_dict (integrate_list_to_dict
         \<lparr>tpl_list = [(''f1'', ''shared''), (''f1'', ''only_f1''), (''f2'', ''shared'')],
          str_func_dict = Map.empty\<rparr>))"
  using integrate_keys_unique
    [of "\<lparr>tpl_list = [(''f1'', ''shared''), (''f1'', ''only_f1''), (''f2'', ''shared'')],
          str_func_dict = Map.empty\<rparr>"]
  by simp

text \<open>
  C7, evaluated on the code. After \<open>Record.integrate_list_to_dict\<close> the candidate list is
  not empty: it holds the surviving associations, sorted. With the single association
  \<open>(f, x)\<close> the list after the adjudication still is \<open>[(f, x)]\<close>.
\<close>

theorem candidate_list_not_cleared:
  "tpl_list (integrate_list_to_dict \<lparr>tpl_list = [(''f'', ''x'')], str_func_dict = Map.empty\<rparr>)
     = [(''f'', ''x'')]"
  by (simp add: tpl_list_integrate remove_non_unique_def)

text \<open>
  C8. Take the state an earlier adjudication left and any candidate list \<open>later\<close> for the
  next one. After the later adjudication every key of the earlier output mapping is still
  a key; every survivor \<open>(f, s)\<close> of the later candidate list has \<open>s\<close> mapped to \<open>f\<close>,
  whatever \<open>s\<close> was mapped to before; and every other key keeps its earlier value.
\<close>

theorem upsert_no_deletion:
  "dom (str_func_dict (integrate_list_to_dict rs0))
     \<subseteq> dom (str_func_dict (integrate_list_to_dict
            ((integrate_list_to_dict rs0)\<lparr>tpl_list := later\<rparr>)))
   \<and> (\<forall>(f, s) \<in> set (remove_non_unique later).
         str_func_dict (integrate_list_to_dict
            ((integrate_list_to_dict rs0)\<lparr>tpl_list := later\<rparr>)) s = Some f)
   \<and> (\<forall>k. k \<notin> snd ` set (remove_non_unique later) \<longrightarrow>
         str_func_dict (integrate_list_to_dict
            ((integrate_list_to_dict rs0)\<lparr>tpl_list := later\<rparr>)) k
           = str_func_dict (integrate_list_to_dict rs0) k)"
proof -
  let ?rs1 = "integrate_list_to_dict rs0"
  let ?rs2 = "integrate_list_to_dict (?rs1\<lparr>tpl_list := later\<rparr>)"
  let ?new = "py_dict (reverse_pairs (sort_key fst (remove_non_unique later)))"
  have eq: "str_func_dict ?rs2 = str_func_dict ?rs1 ++ ?new"
    by (simp add: str_func_dict_integrate)
  have a: "dom (str_func_dict ?rs1) \<subseteq> dom (str_func_dict ?rs2)"
    unfolding eq by simp
  have b: "str_func_dict ?rs2 s = Some f" if "(f, s) \<in> set (remove_non_unique later)" for f s
  proof -
    have "?new s = Some f"
      using that py_dict_reverse_distinct
        [where l = "sort_key fst (remove_non_unique later)" and s = s and f = f,
          OF distinct_sorted_survivors] by simp
    then show ?thesis unfolding eq by (simp add: map_add_Some_iff)
  qed
  have c: "str_func_dict ?rs2 k = str_func_dict ?rs1 k"
    if "k \<notin> snd ` set (remove_non_unique later)" for k
  proof -
    have "k \<notin> dom ?new" using that by (simp add: dom_py_dict_reverse)
    then show ?thesis unfolding eq by (simp add: map_add_dom_app_simps)
  qed
  show ?thesis using a b c by blast
qed

theorem upsert_no_deletion_witness:
  "(''h'', ''k'') \<in> set (remove_non_unique [(''h'', ''k'')])
   \<and> ''z'' \<notin> snd ` set (remove_non_unique [(''h'', ''k'')])
   \<and> str_func_dict (integrate_list_to_dict
         \<lparr>tpl_list = [(''f'', ''k''), (''g'', ''k'')],
          str_func_dict = [''k'' \<mapsto> ''f'', ''z'' \<mapsto> ''q'']\<rparr>) ''k'' = Some ''f''
   \<and> str_func_dict (integrate_list_to_dict
         ((integrate_list_to_dict
            \<lparr>tpl_list = [(''f'', ''k''), (''g'', ''k'')],
             str_func_dict = [''k'' \<mapsto> ''f'', ''z'' \<mapsto> ''q'']\<rparr>)
          \<lparr>tpl_list := [(''h'', ''k'')]\<rparr>)) ''k'' = Some ''h''
   \<and> str_func_dict (integrate_list_to_dict
         ((integrate_list_to_dict
            \<lparr>tpl_list = [(''f'', ''k''), (''g'', ''k'')],
             str_func_dict = [''k'' \<mapsto> ''f'', ''z'' \<mapsto> ''q'']\<rparr>)
          \<lparr>tpl_list := [(''h'', ''k'')]\<rparr>)) ''z'' = Some ''q''"
proof -
  let ?rs0 = "\<lparr>tpl_list = [(''f'', ''k''), (''g'', ''k'')],
             str_func_dict = [''k'' \<mapsto> ''f'', ''z'' \<mapsto> ''q'']\<rparr>"
  have sv: "remove_non_unique [(''h'', ''k'')] = [(''h'', ''k'')]"
    by (simp add: remove_non_unique_def)
  have sv0: "remove_non_unique [(''f'', ''k''), (''g'', ''k'')] = []"
    by (simp add: remove_non_unique_def)
  have d1: "str_func_dict (integrate_list_to_dict ?rs0) = [''k'' \<mapsto> ''f'', ''z'' \<mapsto> ''q'']"
    by (simp add: str_func_dict_integrate sv0 py_dict_def reverse_pairs_def)
  from upsert_no_deletion [of ?rs0 "[(''h'', ''k'')]"] show ?thesis
    unfolding sv d1 by simp
qed

text \<open>
  C10. The associations that survive \<open>Record.remove_non_unique_from_list\<close> have pairwise
  distinct strings and form a subsequence of the candidate list (same relative order);
  the reverse dictionary built from them after the sort has as many keys as there are
  survivors, and maps the string of every survivor to that survivor's function.
\<close>

theorem survivors_distinct_in_order:
  "distinct (map snd (tpl_list (remove_non_unique_from_list rs)))
   \<and> subseq (tpl_list (remove_non_unique_from_list rs)) (tpl_list rs)
   \<and> card (dom (py_dict (reverse_pairs (tpl_list (sort_tmp_list (remove_non_unique_from_list rs))))))
       = length (tpl_list (remove_non_unique_from_list rs))
   \<and> (\<forall>(f, s) \<in> set (tpl_list (remove_non_unique_from_list rs)).
         py_dict (reverse_pairs (tpl_list (sort_tmp_list (remove_non_unique_from_list rs)))) s
           = Some f)"
proof -
  let ?sv = "remove_non_unique (tpl_list rs)"
  have d: "distinct (map snd ?sv)" by (rule distinct_survivors)
  have o: "subseq ?sv (tpl_list rs)" by (simp add: remove_non_unique_filter)
  have "card (snd ` set ?sv) = length ?sv"
    using d by (metis distinct_card length_map set_map)
  then have c: "card (dom (py_dict (reverse_pairs (sort_key fst ?sv)))) = length ?sv"
    by (simp add: dom_py_dict_reverse)
  have e: "py_dict (reverse_pairs (sort_key fst ?sv)) s = Some f" if "(f, s) \<in> set ?sv" for f s
    using that py_dict_reverse_distinct
      [where l = "sort_key fst ?sv" and s = s and f = f, OF distinct_sorted_survivors]
    by simp
  show ?thesis
    using d o c e by (auto simp: remove_non_unique_from_list_def sort_tmp_list_def)
qed

theorem survivors_distinct_in_order_witness:
  "(''f1'', ''only_f1'') \<in> set (tpl_list (remove_non_unique_from_list
       \<lparr>tpl_list = [(''f2'', ''shared''), (''f1'', ''only_f1''), (''f1'', ''shared'')],
        str_func_dict = Map.empty\<rparr>))
   \<and> py_dict (reverse_pairs (tpl_list (sort_tmp_list (remove_non_unique_from_list
       \<lparr>tpl_list = [(''f2'', ''shared''), (''f1'', ''only_f1''), (''f1'', ''shared'')],
        str_func_dict = Map.empty\<rparr>)))) ''only_f1'' = Some ''f1''"
proof -
  let ?rs = "\<lparr>tpl_list = [(''f2'', ''shared''), (''f1'', ''only_f1''), (''f1'', ''shared'')],
        str_func_dict = Map.empty\<rparr>"
  have m: "(''f1'', ''only_f1'') \<in> set (tpl_list (remove_non_unique_from_list ?rs))"
    by (simp add: remove_non_unique_from_list_def remove_non_unique_def)
  from survivors_distinct_in_order [of ?rs] m show ?thesis by blast
qed

end
